theory Spec2Isabelle
  imports Complex_Main "HOL-Library.Word"
begin

section \<open>The model: definitions translated from the sources\<close>

subsection \<open>Particle filters: ParticleFilterIntersection\<close>

text \<open>
  Source: \<^verbatim>\<open>src/hoomd/filter/ParticleFilterIntersection.h\<close>.
  A particle tag is an \<^verbatim>\<open>unsigned int\<close>.  A filter is an object with a virtual
  \<^verbatim>\<open>getSelectedTags(sysdef)\<close>; the two component filters \<^verbatim>\<open>m_f\<close> and \<^verbatim>\<open>m_g\<close> are
  therefore functions from the system definition to a vector of tags.
\<close>

type_synonym tag = "32 word"

type_synonym 'sys particle_filter = "'sys \<Rightarrow> tag list"

text \<open>
  \<^verbatim>\<open>std::set_intersection(first1, last1, first2, last2, result)\<close> of the C++ standard
  library: both cursors advance over the sorted ranges; an element is written when
  neither is smaller than the other.
\<close>

fun set_intersection :: "tag list \<Rightarrow> tag list \<Rightarrow> tag list" where
  "set_intersection [] ys = []"
| "set_intersection (x # xs) [] = []"
| "set_intersection (x # xs) (y # ys) =
     (if x < y then set_intersection xs (y # ys)
      else if y < x then set_intersection (x # xs) ys
      else x # set_intersection xs ys)"

text \<open>
  \<^verbatim>\<open>getSelectedTags\<close>: sort the result of \<^verbatim>\<open>m_f\<close> into \<^verbatim>\<open>X\<close>, the result of \<^verbatim>\<open>m_g\<close>
  into \<^verbatim>\<open>Y\<close>, intersect into a vector of \<^verbatim>\<open>min(X.size(), Y.size())\<close> slots and cut
  the vector at the returned output iterator.
\<close>

definition getSelectedTags ::
  "'sys particle_filter \<Rightarrow> 'sys particle_filter \<Rightarrow> 'sys \<Rightarrow> tag list" where
  "getSelectedTags m_f m_g sysdef =
     (let X = sort (m_f sysdef);
          Y = sort (m_g sysdef)
      in set_intersection X Y)"

subsection \<open>Update order: detail::UpdateOrderGPU\<close>

text \<open>
  Source: \<^verbatim>\<open>src/unnamed/part_002\<close> (IntegratorHPMCMonoGPU.h), class
  \<^verbatim>\<open>detail::UpdateOrderGPU\<close>.  The seed, the sizes and the stored indices are
  \<^verbatim>\<open>unsigned int\<close>; every value stored is below the vector size, and the only
  subtraction, \<^verbatim>\<open>N - i - 1\<close>, is evaluated with \<^verbatim>\<open>i < N\<close>, so they are natural
  numbers here.
\<close>

record UpdateOrderGPU =
  m_seed :: nat
  m_is_reversed :: bool
  m_update_order :: "nat list"
  m_reverse_update_order :: "nat list"

text \<open>\<^verbatim>\<open>GlobalVector::resize(N)\<close>: the first \<^verbatim>\<open>N\<close> elements are kept, new slots are zero.\<close>

definition vector_resize :: "nat \<Rightarrow> nat list \<Rightarrow> nat list" where
  "vector_resize N xs = take N xs @ replicate (N - length xs) 0"

text \<open>The loop \<^verbatim>\<open>for (unsigned int i = 0; i < N; i++)\<close> of \<^verbatim>\<open>resize\<close>.\<close>

function resize_loop :: "nat \<Rightarrow> nat \<Rightarrow> nat list \<Rightarrow> nat list \<Rightarrow> nat list \<times> nat list" where
  "resize_loop i N h_update_order h_reverse_update_order =
     (if i < N
      then resize_loop (i + 1) N (h_update_order[i := i])
             (h_reverse_update_order[i := N - i - 1])
      else (h_update_order, h_reverse_update_order))"
  by pat_completeness auto
termination
  by (relation "measure (\<lambda>(i, N, _, _). N - i)") auto

declare resize_loop.simps [simp del]

definition resize :: "UpdateOrderGPU \<Rightarrow> nat \<Rightarrow> UpdateOrderGPU" where
  "resize u N =
     (if N = 0 \<or> N = length (m_update_order u) then u
      else
        (case resize_loop 0 N (vector_resize N (m_update_order u))
                (vector_resize N (m_reverse_update_order u)) of
           (uo, ro) \<Rightarrow>
             u\<lparr>m_update_order := uo, m_reverse_update_order := ro, m_is_reversed := False\<rparr>))"

text \<open>
  \<^verbatim>\<open>shuffle(timestep, select)\<close>.  \<^verbatim>\<open>hoomd::RandomGenerator\<close> and
  \<^verbatim>\<open>hoomd::UniformIntDistribution\<close> are declared in \<^verbatim>\<open>hoomd/RandomNumbers.h\<close>, which is
  not among the sources: the parameter \<open>uniform_int\<close> stands for the first value that
  \<^verbatim>\<open>UniformIntDistribution(1)\<close> draws from a generator constructed with the keys
  \<^verbatim>\<open>(HPMCMonoShuffle, m_seed, timestep, select)\<close>; the assignment to the \<^verbatim>\<open>bool\<close> member
  converts it by comparison with zero.
\<close>

definition shuffle ::
  "(nat \<Rightarrow> nat \<Rightarrow> nat \<Rightarrow> nat) \<Rightarrow> UpdateOrderGPU \<Rightarrow> nat \<Rightarrow> nat \<Rightarrow> UpdateOrderGPU" where
  "shuffle uniform_int u timestep select =
     u\<lparr>m_is_reversed := (uniform_int (m_seed u) timestep select \<noteq> 0)\<rparr>"

text \<open>
  \<^verbatim>\<open>operator[](i)\<close>.  The source reads \<^verbatim>\<open>h_update_order.data[i]\<close> unchecked; an index
  outside the vector has no defined result, which is \<open>None\<close> here.
\<close>

definition subscript :: "UpdateOrderGPU \<Rightarrow> nat \<Rightarrow> nat option" where
  "subscript u i =
     (let update_order = (if m_is_reversed u then m_reverse_update_order u else m_update_order u)
      in if i < length update_order then Some (update_order ! i) else None)"

text \<open>\<^verbatim>\<open>get()\<close>: the vector selected by the flag.\<close>

definition get_order :: "UpdateOrderGPU \<Rightarrow> nat list" where
  "get_order u = (if m_is_reversed u then m_reverse_update_order u else m_update_order u)"

subsection \<open>Vector types and error values\<close>

text \<open>
  HOOMD's \<^verbatim>\<open>uint3\<close>, \<^verbatim>\<open>uchar3\<close> and \<^verbatim>\<open>Scalar3\<close> are structs with the fields \<^verbatim>\<open>x\<close>,
  \<^verbatim>\<open>y\<close>, \<^verbatim>\<open>z\<close>.  A \<^verbatim>\<open>Scalar\<close> is a floating-point number; it is a real number here,
  so rounding is not modelled: the comparisons and sums of the sources are exact.
\<close>

record 'a vec3 =
  x :: 'a
  y :: 'a
  z :: 'a

type_synonym uint3 = "nat vec3"
type_synonym Scalar3 = "real vec3"

text \<open>
  A failed \<^verbatim>\<open>assert\<close> and a thrown \<^verbatim>\<open>std::runtime_error\<close> are the two ways in which
  the functions modelled below stop without a result.
\<close>

datatype error = AssertionFailed | RuntimeError

subsection \<open>Domain decomposition: the process grid\<close>

text \<open>
  Source: \<^verbatim>\<open>src/libhoomd/communication/DomainDecomposition.cc\<close>.  The number of
  processes \<^verbatim>\<open>m_mpi_comm->size()\<close> is a positive \<^verbatim>\<open>int\<close>, hence below \<open>2 ^ 31\<close>; grid
  extents and ranks are bounded by it, so the \<^verbatim>\<open>unsigned int\<close> products of the source do
  not wrap and are products of natural numbers here.
\<close>

text \<open>
  Modelled from the spec: the class \<^verbatim>\<open>Index3D\<close> (constructor, \<^verbatim>\<open>operator()\<close> and
  \<^verbatim>\<open>getTriple\<close>) is declared in a header that is not among the sources.  The spec gives
  the decoding of a rank as "row-major decode with x fastest-varying"; \<^verbatim>\<open>operator()\<close> is
  the matching encoding.
\<close>

record Index3D =
  m_w :: nat
  m_h :: nat
  m_d :: nat


definition getTriple :: "Index3D \<Rightarrow> nat \<Rightarrow> uint3" where
  "getTriple idx r =
     \<lparr>x = r mod m_w idx, y = (r div m_w idx) mod m_h idx, z = r div (m_w idx * m_h idx)\<rparr>"

record DomainDecomposition =
  m_nx :: nat
  m_ny :: nat
  m_nz :: nat
  m_grid_pos :: uint3
  m_index :: Index3D





text \<open>
  The end of the constructor, the same on every rank once the grid has been broadcast:
  \<^verbatim>\<open>m_index = Index3D(m_nx, m_ny, m_nz); m_grid_pos = m_index.getTriple(rank);\<close>
\<close>

definition domain_of_rank :: "nat \<Rightarrow> nat \<Rightarrow> nat \<Rightarrow> nat \<Rightarrow> DomainDecomposition" where
  "domain_of_rank nx ny nz rank =
     (let idx = \<lparr>m_w = nx, m_h = ny, m_d = nz\<rparr>
      in \<lparr>m_nx = nx, m_ny = ny, m_nz = nz, m_grid_pos = getTriple idx rank, m_index = idx\<rparr>)"


definition torus_step :: "nat \<Rightarrow> int \<Rightarrow> nat \<Rightarrow> nat" where
  "torus_step c a n = nat ((int c + a) mod int n)"

subsection \<open>Domain decomposition: findDecomposition\<close>

text \<open>
  The variables that the three nested loops of \<^verbatim>\<open>findDecomposition\<close> update: the
  reference parameters \<^verbatim>\<open>nx\<close>, \<^verbatim>\<open>ny\<close>, \<^verbatim>\<open>nz\<close> (here \<open>cur_nx\<close>, \<open>cur_ny\<close>, \<open>cur_nz\<close>),
  \<^verbatim>\<open>min_surface_area\<close> and \<^verbatim>\<open>found_decomposition\<close>.
\<close>

record search =
  cur_nx :: nat
  cur_ny :: nat
  cur_nz :: nat
  min_surface_area :: real
  found_decomposition :: bool

text \<open>\<^verbatim>\<open>double surface_area = L.x*L.y*nz_try + L.x*L.z*ny_try + L.y*L.z*nx_try;\<close>\<close>

definition surface_area :: "Scalar3 \<Rightarrow> nat \<Rightarrow> nat \<Rightarrow> nat \<Rightarrow> real" where
  "surface_area L nx_try ny_try nz_try =
     x L * y L * real nz_try + x L * z L * real ny_try + y L * z L * real nx_try"

text \<open>
  The body of the innermost loop.  Each \<^verbatim>\<open>continue\<close> leaves the state as it is.
\<close>

definition nz_body ::
  "nat \<Rightarrow> Scalar3 \<Rightarrow> nat \<Rightarrow> nat \<Rightarrow> nat \<Rightarrow> nat \<Rightarrow> nat \<Rightarrow> nat \<Rightarrow> search \<Rightarrow> search" where
  "nz_body comm_size L nx_in ny_in nz_in nx_try ny_try nz_try s =
     (if nz_in \<noteq> 0 \<and> nz_try \<noteq> nz_in then s
      else if nx_try * ny_try * nz_try \<noteq> comm_size then s
      else if surface_area L nx_try ny_try nz_try < min_surface_area s
              \<or> \<not> found_decomposition s
      then \<lparr>cur_nx = nx_try, cur_ny = ny_try, cur_nz = nz_try,
            min_surface_area = surface_area L nx_try ny_try nz_try,
            found_decomposition = True\<rparr>
      else s)"

text \<open>
  A loop \<^verbatim>\<open>for (unsigned int v = 1; cond(v); v++)\<close> visits \<open>1, 2, 3, \<dots>\<close> up to the first
  value at which the condition fails.  The three conditions are \<^verbatim>\<open>nx_try <= size\<close>,
  \<^verbatim>\<open>nx_try*ny_try <= size\<close> and \<^verbatim>\<open>nx_try*ny_try*nz_try <= size\<close> with factors that are
  at least one, so they fail at \<open>size + 1\<close> at the latest: the values visited are the
  longest prefix of \<open>1, \<dots>, size\<close> on which the condition holds.  With
  \<open>size < 2 ^ 31\<close> no product evaluated on the way exceeds \<open>2 * size\<close>, so none wraps.
\<close>

definition candidates :: "nat \<Rightarrow> (nat \<Rightarrow> bool) \<Rightarrow> nat list" where
  "candidates comm_size cond = takeWhile cond [1..<Suc comm_size]"

definition nz_loop ::
  "nat \<Rightarrow> Scalar3 \<Rightarrow> nat \<Rightarrow> nat \<Rightarrow> nat \<Rightarrow> nat \<Rightarrow> nat \<Rightarrow> search \<Rightarrow> search" where
  "nz_loop comm_size L nx_in ny_in nz_in nx_try ny_try s =
     fold (nz_body comm_size L nx_in ny_in nz_in nx_try ny_try)
       (candidates comm_size (\<lambda>nz_try. nx_try * ny_try * nz_try \<le> comm_size)) s"

definition ny_body ::
  "nat \<Rightarrow> Scalar3 \<Rightarrow> nat \<Rightarrow> nat \<Rightarrow> nat \<Rightarrow> nat \<Rightarrow> nat \<Rightarrow> search \<Rightarrow> search" where
  "ny_body comm_size L nx_in ny_in nz_in nx_try ny_try s =
     (if ny_in \<noteq> 0 \<and> ny_try \<noteq> ny_in then s
      else nz_loop comm_size L nx_in ny_in nz_in nx_try ny_try s)"

definition ny_loop ::
  "nat \<Rightarrow> Scalar3 \<Rightarrow> nat \<Rightarrow> nat \<Rightarrow> nat \<Rightarrow> nat \<Rightarrow> search \<Rightarrow> search" where
  "ny_loop comm_size L nx_in ny_in nz_in nx_try s =
     fold (ny_body comm_size L nx_in ny_in nz_in nx_try)
       (candidates comm_size (\<lambda>ny_try. nx_try * ny_try \<le> comm_size)) s"

definition nx_body ::
  "nat \<Rightarrow> Scalar3 \<Rightarrow> nat \<Rightarrow> nat \<Rightarrow> nat \<Rightarrow> nat \<Rightarrow> search \<Rightarrow> search" where
  "nx_body comm_size L nx_in ny_in nz_in nx_try s =
     (if nx_in \<noteq> 0 \<and> nx_try \<noteq> nx_in then s
      else ny_loop comm_size L nx_in ny_in nz_in nx_try s)"

definition nx_loop ::
  "nat \<Rightarrow> Scalar3 \<Rightarrow> nat \<Rightarrow> nat \<Rightarrow> nat \<Rightarrow> search \<Rightarrow> search" where
  "nx_loop comm_size L nx_in ny_in nz_in s =
     fold (nx_body comm_size L nx_in ny_in nz_in)
       (candidates comm_size (\<lambda>nx_try. nx_try \<le> comm_size)) s"

text \<open>
  \<^verbatim>\<open>findDecomposition(L, nx, ny, nz)\<close> returns \<^verbatim>\<open>found_decomposition\<close> and leaves the grid
  in its reference parameters.  The three assertions on \<^verbatim>\<open>L\<close> come first.
\<close>

definition findDecomposition ::
  "nat \<Rightarrow> Scalar3 \<Rightarrow> nat \<Rightarrow> nat \<Rightarrow> nat \<Rightarrow> error + (bool \<times> nat \<times> nat \<times> nat)" where
  "findDecomposition comm_size L nx ny nz =
     (if \<not> (x L > 0 \<and> y L > 0 \<and> z L > 0) then Inl AssertionFailed
      else
        let s0 = \<lparr>cur_nx = 1, cur_ny = 1, cur_nz = comm_size,
                  min_surface_area = x L * y L * real comm_size + x L * z L + y L * z L,
                  found_decomposition = (nx = 0 \<and> ny = 0 \<and> nz = 0)\<rparr>;
            s = nx_loop comm_size L nx ny nz s0
        in Inr (found_decomposition s, cur_nx s, cur_ny s, cur_nz s))"



text \<open>
  Vocabulary of the claims on \<^verbatim>\<open>findDecomposition\<close>: a factorization \<open>a * b * c\<close> of the
  number of processes that agrees with every pinned (nonzero) request; a property of the
  loop state that every execution of the innermost body keeps; the state before the
  loops.
\<close>

definition matches_request :: "nat \<Rightarrow> nat \<Rightarrow> nat \<Rightarrow> nat \<Rightarrow> nat \<Rightarrow> nat \<Rightarrow> nat \<Rightarrow> bool" where
  "matches_request comm_size nx_in ny_in nz_in a b c \<longleftrightarrow>
     a * b * c = comm_size \<and> (nx_in = 0 \<or> a = nx_in) \<and> (ny_in = 0 \<or> b = ny_in)
     \<and> (nz_in = 0 \<or> c = nz_in)"

definition stable_search ::
  "nat \<Rightarrow> Scalar3 \<Rightarrow> nat \<Rightarrow> nat \<Rightarrow> nat \<Rightarrow> (search \<Rightarrow> bool) \<Rightarrow> bool" where
  "stable_search comm_size L nx_in ny_in nz_in Pr \<longleftrightarrow>
     (\<forall>a b c s. (nx_in = 0 \<or> a = nx_in) \<longrightarrow> (ny_in = 0 \<or> b = ny_in) \<longrightarrow> Pr s \<longrightarrow>
        Pr (nz_body comm_size L nx_in ny_in nz_in a b c s))"


definition search_start :: "nat \<Rightarrow> Scalar3 \<Rightarrow> nat \<Rightarrow> nat \<Rightarrow> nat \<Rightarrow> search" where
  "search_start comm_size L nx ny nz =
     \<lparr>cur_nx = 1, cur_ny = 1, cur_nz = comm_size,
      min_surface_area = x L * y L * real comm_size + x L * z L + y L * z L,
      found_decomposition = (nx = 0 \<and> ny = 0 \<and> nz = 0)\<rparr>"

subsection \<open>Domain decomposition: the constructor\<close>

text \<open>
  What the constructor writes to the messenger on the root rank: the error-level message
  "Unable to find a decomposition of total number of domains == size with requested
  dimensions. Choosing default decomposition." and the notice with the size and the
  grid.
\<close>

datatype message =
  Unable_to_find_decomposition nat
| Notice_decomposition nat nat nat nat

text \<open>
  The constructor, as seen from the process \<open>rank\<close>, with the arguments \<^verbatim>\<open>L\<close>, \<^verbatim>\<open>nx\<close>, \<^verbatim>\<open>ny\<close>,
  \<^verbatim>\<open>nz\<close> of the root rank.  Only the root runs the search; the grid it stores is
  broadcast, so every rank ends with the root's \<^verbatim>\<open>m_nx\<close>, \<^verbatim>\<open>m_ny\<close>, \<^verbatim>\<open>m_nz\<close>.  The list is
  the root's output.  When the first search fails the root reports it, sets
  \<^verbatim>\<open>nx = ny = nz = 0\<close> and searches again; the only way to leave the constructor without an
  object is a failed assertion inside \<^verbatim>\<open>findDecomposition\<close>.
\<close>

definition construct_DomainDecomposition ::
  "nat \<Rightarrow> nat \<Rightarrow> Scalar3 \<Rightarrow> nat \<Rightarrow> nat \<Rightarrow> nat \<Rightarrow> error + (message list \<times> DomainDecomposition)" where
  "construct_DomainDecomposition comm_size rank L nx ny nz =
     (case findDecomposition comm_size L nx ny nz of
        Inl e \<Rightarrow> Inl e
      | Inr (found, nx1, ny1, nz1) \<Rightarrow>
          if \<not> found then
            (case findDecomposition comm_size L 0 0 0 of
               Inl e \<Rightarrow> Inl e
             | Inr (_, nx2, ny2, nz2) \<Rightarrow>
                 Inr ([Unable_to_find_decomposition comm_size,
                       Notice_decomposition comm_size nx2 ny2 nz2],
                      domain_of_rank nx2 ny2 nz2 rank))
          else
            Inr ([Notice_decomposition comm_size nx1 ny1 nz1],
                 domain_of_rank nx1 ny1 nz1 rank))"

subsection \<open>HPMC integrator: the minimum image check of update\<close>

text \<open>
  Source: \<^verbatim>\<open>src/unnamed/part_002\<close>, \<^verbatim>\<open>IntegratorHPMCMonoGPU::update\<close>.  What the check at
  the start of \<^verbatim>\<open>update\<close> reads: the number of local particles \<^verbatim>\<open>m_pdata->getN()\<close>, the
  periodic flags and the nearest plane distance of the global box (\<^verbatim>\<open>BoxDim\<close> is not
  among the sources, so the two vectors are inputs), \<^verbatim>\<open>m_nominal_width\<close> and
  \<^verbatim>\<open>m_sysdef->getNDimensions()\<close>.
\<close>

record hpmc_system =
  pdata_N :: nat
  global_periodic :: "bool vec3"
  nearest_plane_distance :: Scalar3
  m_nominal_width :: real
  n_dimensions :: nat

text \<open>
  \<^verbatim>\<open>update(timestep)\<close> over an integrator state \<open>'s\<close>.  The parameters stand for the code
  around the check: \<open>prelude\<close> for \<^verbatim>\<open>IntegratorHPMC::update\<close> and the refresh of the
  additive cutoffs, which come before it; \<open>sweeps\<close> for everything that follows it inside
  \<^verbatim>\<open>if (m_pdata->getN() > 0)\<close> (cell list, the \<^verbatim>\<open>nselect\<close> sweeps with their trial moves
  and the commit of accepted moves, the reduction of the counters); \<open>shift\<close> for the
  wrap of the particles into the box; \<open>communicate\<close> for the communication and migration
  at the end.  The \<^verbatim>\<open>throw std::runtime_error\<close> leaves \<^verbatim>\<open>update\<close> with the state reached
  at that point.
\<close>

definition update ::
  "('s \<Rightarrow> 's) \<Rightarrow> ('s \<Rightarrow> 's) \<Rightarrow> ('s \<Rightarrow> 's) \<Rightarrow> ('s \<Rightarrow> 's) \<Rightarrow> hpmc_system \<Rightarrow> 's
     \<Rightarrow> (error \<times> 's) + 's" where
  "update prelude sweeps shift communicate sys st =
     (let st0 = prelude st in
      if pdata_N sys > 0 then
        if (x (global_periodic sys) \<and> x (nearest_plane_distance sys) \<le> m_nominal_width sys * 2)
           \<or> (y (global_periodic sys) \<and> y (nearest_plane_distance sys) \<le> m_nominal_width sys * 2)
           \<or> (n_dimensions sys = 3 \<and> z (global_periodic sys)
                \<and> z (nearest_plane_distance sys) \<le> m_nominal_width sys * 2)
        then Inl (RuntimeError, st0)
        else Inr (communicate (shift (sweeps st0)))
      else Inr (communicate st0))"

subsection \<open>HPMC integrator: the convergence loop of a sweep\<close>

text \<open>
  Source: \<^verbatim>\<open>src/unnamed/part_002\<close>, \<^verbatim>\<open>IntegratorHPMCMonoGPU::update\<close>, the initialisation
  of the reject flags and the loop \<^verbatim>\<open>while (!converged)\<close>.  The members it works on:
  the flag arrays \<^verbatim>\<open>m_reject\<close> and \<^verbatim>\<open>m_reject_out\<close> (one entry per local particle), the
  flag \<^verbatim>\<open>m_condition\<close>, and the shared memory lengths \<^verbatim>\<open>m_max_len\<close> and \<^verbatim>\<open>m_req_len\<close>.
  The model is the sweep of a system with hard overlaps only: every fugacity is zero and
  no patch energy is set, so that the branches of the depletant kernels, of
  \<^verbatim>\<open>hpmc_depletants_accept\<close> and of \<^verbatim>\<open>computePatchEnergyGPU\<close> are not entered and the narrow
  phase is the only kernel that writes \<^verbatim>\<open>m_reject_out\<close>.
\<close>

record sweep_state =
  m_reject :: "bool list"
  m_reject_out :: "bool list"
  m_condition :: nat
  m_max_len :: nat
  m_req_len :: nat










definition after_iteration :: "sweep_state \<Rightarrow> bool list \<Rightarrow> bool list \<Rightarrow> nat \<Rightarrow> sweep_state" where
  "after_iteration st reject reject_new condition =
     st\<lparr>m_max_len := max (m_max_len st) (m_req_len st), m_condition := condition,
        m_reject := reject_new, m_reject_out := reject\<rparr>"

subsection \<open>HPMC integrator: depletant kernels and the free energy accumulator\<close>






















subsection \<open>Harmonic bond forces: floating-point values\<close>













subsection \<open>Harmonic bond forces: computeForces\<close>

















section \<open>Verification\<close>

subsection \<open>ParticleFilterIntersection: sorted intersection\<close>

lemma set_intersection_subset:
  "set (set_intersection xs ys) \<subseteq> set xs \<inter> set ys"
  by (induction xs ys rule: set_intersection.induct) auto

lemma set_intersection_set:
  "sorted xs \<Longrightarrow> sorted ys \<Longrightarrow> set (set_intersection xs ys) = set xs \<inter> set ys"
proof (induction xs ys rule: set_intersection.induct)
  case (3 x xs y ys)
  from "3.prems" have sx: "sorted xs" "\<forall>a\<in>set xs. x \<le> a"
    and sy: "sorted ys" "\<forall>b\<in>set ys. y \<le> b"
    by simp_all
  show ?case
  proof (cases "x < y")
    case True
    then have "x \<notin> set (y # ys)" using sy by auto
    moreover have "set (set_intersection xs (y # ys)) = set xs \<inter> set (y # ys)"
      using "3.IH"(1) True sx(1) "3.prems"(2) by simp
    ultimately show ?thesis using True by auto
  next
    case False
    show ?thesis
    proof (cases "y < x")
      case True
      then have "y \<notin> set (x # xs)" using sx by auto
      moreover have "set (set_intersection (x # xs) ys) = set (x # xs) \<inter> set ys"
        using "3.IH"(2) \<open>\<not> x < y\<close> True sy(1) "3.prems"(1) by simp
      ultimately show ?thesis using \<open>\<not> x < y\<close> True by auto
    next
      case nlt: False
      with False have eq: "x = y" by simp
      have "set (set_intersection xs ys) = set xs \<inter> set ys"
        using "3.IH"(3) False nlt sx(1) sy(1) by simp
      then show ?thesis using False nlt eq by auto
    qed
  qed
qed simp_all

lemma set_intersection_sorted:
  "sorted xs \<Longrightarrow> sorted ys \<Longrightarrow> sorted (set_intersection xs ys)"
proof (induction xs ys rule: set_intersection.induct)
  case (3 x xs y ys)
  have sub: "set (set_intersection xs ys) \<subseteq> set xs \<inter> set ys"
    by (rule set_intersection_subset)
  from "3.prems" have "\<forall>a\<in>set xs. x \<le> a" by simp
  with sub have "\<forall>a\<in>set (set_intersection xs ys). x \<le> a" by blast
  with 3 show ?case by auto
qed simp_all

lemma set_intersection_distinct:
  "distinct xs \<Longrightarrow> distinct (set_intersection xs ys)"
proof (induction xs ys rule: set_intersection.induct)
  case (3 x xs y ys)
  have "set (set_intersection xs ys) \<subseteq> set xs \<inter> set ys"
    by (rule set_intersection_subset)
  with 3 show ?case by auto
qed simp_all

lemma set_intersection_length:
  "length (set_intersection xs ys) \<le> min (length xs) (length ys)"
  by (induction xs ys rule: set_intersection.induct) auto

text \<open>
  Claim C10.  For every system definition and every two component filters,
  \<^verbatim>\<open>getSelectedTags\<close> returns a sorted list whose elements are exactly the tags that
  occur in both component results; it has no duplicates when the result of the first
  component is duplicate-free (in particular when both results are), and it never
  holds a tag that one of the components did not return.
\<close>

theorem getSelectedTags_intersection:
  "sorted (getSelectedTags m_f m_g sysdef)
   \<and> set (getSelectedTags m_f m_g sysdef) = set (m_f sysdef) \<inter> set (m_g sysdef)
   \<and> (distinct (m_f sysdef) \<and> distinct (m_g sysdef)
        \<longrightarrow> distinct (getSelectedTags m_f m_g sysdef))
   \<and> set (getSelectedTags m_f m_g sysdef) \<subseteq> set (m_f sysdef)
   \<and> set (getSelectedTags m_f m_g sysdef) \<subseteq> set (m_g sysdef)"
  by (simp add: getSelectedTags_def set_intersection_set set_intersection_sorted
      set_intersection_distinct)

theorem getSelectedTags_intersection_witness:
  "distinct [5, 2, 3 :: tag] \<and> distinct [3, 4, 5 :: tag]
   \<and> getSelectedTags (\<lambda>_. [5, 2, 3]) (\<lambda>_. [3, 4, 5]) () = [3, 5]
   \<and> sorted (getSelectedTags (\<lambda>_. [5, 2, 3]) (\<lambda>_. [3, 4, 5]) ())
   \<and> distinct (getSelectedTags (\<lambda>_. [5, 2, 3]) (\<lambda>_. [3, 4, 5]) ())"
  using getSelectedTags_intersection [of "\<lambda>_. [5, 2, 3]" "\<lambda>_. [3, 4, 5]" "()"]
  by (simp add: getSelectedTags_def)

subsection \<open>UpdateOrderGPU: resize, shuffle and subscript\<close>

lemma resize_loop_spec:
  "i \<le> N \<Longrightarrow> length uo = N \<Longrightarrow> length ro = N \<Longrightarrow>
   resize_loop i N uo ro =
     (map (\<lambda>k. if i \<le> k then k else uo ! k) [0..<N],
      map (\<lambda>k. if i \<le> k then N - k - 1 else ro ! k) [0..<N])"
proof (induction i N uo ro rule: resize_loop.induct)
  case (1 i N uo ro)
  show ?case
  proof (cases "i < N")
    case True
    have "resize_loop i N uo ro = resize_loop (i + 1) N (uo[i := i]) (ro[i := N - i - 1])"
      using True by (subst resize_loop.simps) simp
    also have "\<dots> = (map (\<lambda>k. if i + 1 \<le> k then k else uo[i := i] ! k) [0..<N],
      map (\<lambda>k. if i + 1 \<le> k then N - k - 1 else ro[i := N - i - 1] ! k) [0..<N])"
      using "1.IH" [OF True] True "1.prems" by simp
    also have "\<dots> = (map (\<lambda>k. if i \<le> k then k else uo ! k) [0..<N],
      map (\<lambda>k. if i \<le> k then N - k - 1 else ro ! k) [0..<N])"
      using "1.prems" by (auto simp: nth_list_update)
    finally show ?thesis .
  next
    case False
    with "1.prems" have "i = N" by simp
    moreover have "resize_loop i N uo ro = (uo, ro)"
      using False by (subst resize_loop.simps) simp
    ultimately show ?thesis using "1.prems" by (auto intro!: nth_equalityI)
  qed
qed

lemma length_vector_resize: "length (vector_resize N xs) = N"
  by (simp add: vector_resize_def)

lemma resize_new:
  assumes "N \<noteq> 0" "N \<noteq> length (m_update_order u)"
  shows "resize u N = u\<lparr>m_update_order := [0..<N],
            m_reverse_update_order := map (\<lambda>k. N - k - 1) [0..<N], m_is_reversed := False\<rparr>"
  using assms by (simp add: resize_def resize_loop_spec length_vector_resize map_idI)

text \<open>
  Claim C9.  \<^verbatim>\<open>shuffle(timestep, select)\<close> changes nothing but the reversal flag, which
  becomes the bit drawn by the generator keyed by (seed, timestep, select): both stored
  vectors and the seed are as before.  After \<^verbatim>\<open>resize(N)\<close> with \<open>N\<close> nonzero and different
  from the current size, both vectors have \<open>N\<close> elements, element \<open>i\<close> of the forward
  order is \<open>i\<close> and element \<open>i\<close> of the reverse order is \<open>N - 1 - i\<close>; after a following
  shuffle \<^verbatim>\<open>operator[](i)\<close> returns \<open>i\<close> when the flag is unset and \<open>N - 1 - i\<close> when it
  is set.
\<close>

theorem UpdateOrderGPU_shuffle_resize:
  "m_update_order (shuffle uniform_int u timestep select) = m_update_order u
   \<and> m_reverse_update_order (shuffle uniform_int u timestep select) = m_reverse_update_order u
   \<and> m_seed (shuffle uniform_int u timestep select) = m_seed u
   \<and> m_is_reversed (shuffle uniform_int u timestep select)
        = (uniform_int (m_seed u) timestep select \<noteq> 0)
   \<and> (N \<noteq> 0 \<and> N \<noteq> length (m_update_order u) \<longrightarrow>
        length (m_update_order (resize u N)) = N
        \<and> length (m_reverse_update_order (resize u N)) = N
        \<and> (\<forall>i<N. m_update_order (resize u N) ! i = i
                \<and> m_reverse_update_order (resize u N) ! i = N - 1 - i
                \<and> subscript (shuffle uniform_int (resize u N) timestep select) i
                    = Some (if m_is_reversed (shuffle uniform_int (resize u N) timestep select)
                            then N - 1 - i else i)))"
  by (auto simp: shuffle_def resize_new subscript_def)

theorem UpdateOrderGPU_shuffle_resize_witness:
  "(3::nat) \<noteq> 0 \<and> 3 \<noteq> length (m_update_order \<lparr>m_seed = 7, m_is_reversed = False, m_update_order = [], m_reverse_update_order = []\<rparr>)
   \<and> subscript (shuffle (\<lambda>s t k. 1) (resize \<lparr>m_seed = 7, m_is_reversed = False, m_update_order = [], m_reverse_update_order = []\<rparr> 3) 0 0) 0 = Some 2
   \<and> subscript (shuffle (\<lambda>s t k. 0) (resize \<lparr>m_seed = 7, m_is_reversed = False, m_update_order = [], m_reverse_update_order = []\<rparr> 3) 0 0) 0 = Some 0"
  using UpdateOrderGPU_shuffle_resize [of "\<lambda>s t k. 1" "\<lparr>m_seed = 7, m_is_reversed = False, m_update_order = [], m_reverse_update_order = []\<rparr>" 0 0 3]
    UpdateOrderGPU_shuffle_resize [of "\<lambda>s t k. 0" "\<lparr>m_seed = 7, m_is_reversed = False, m_update_order = [], m_reverse_update_order = []\<rparr>" 0 0 3]
  by (simp add: shuffle_def)

subsection \<open>DomainDecomposition: neighbour ranks on the torus\<close>








lemma torus_step_zero: "c < n \<Longrightarrow> torus_step c 0 n = c"
  by (simp add: torus_step_def)







subsection \<open>findDecomposition: the search visits every matching factorization\<close>

lemma fold_stable:
  assumes st: "\<And>v s. Pr s \<Longrightarrow> Pr (f v s)"
  shows "Pr s \<Longrightarrow> Pr (fold f vs s)"
proof (induction vs arbitrary: s)
  case Nil
  then show ?case by simp
next
  case (Cons v vs)
  from Cons.prems have "Pr (f v s)" by (rule st)
  then have "Pr (fold f vs (f v s))" by (rule Cons.IH)
  then show ?case by simp
qed

lemma fold_reach:
  assumes st: "\<And>v s. Pr s \<Longrightarrow> Pr (f v s)"
    and mem: "v0 \<in> set vs"
    and hit: "\<And>s. Pr (f v0 s)"
  shows "Pr (fold f vs s)"
  using mem
proof (induction vs arbitrary: s)
  case Nil
  then show ?case by simp
next
  case (Cons v vs)
  show ?case
  proof (cases "v = v0")
    case True
    have "Pr (f v0 s)" by (rule hit)
    then have "Pr (fold f vs (f v0 s))"
      using fold_stable [where Pr = Pr and f = f, OF st] by blast
    then show ?thesis using True by simp
  next
    case False
    with Cons.prems have "v0 \<in> set vs" by simp
    then show ?thesis using Cons.IH by simp
  qed
qed

lemma takeWhile_upt_filter:
  assumes "\<And>i j. i \<le> j \<Longrightarrow> Q j \<Longrightarrow> Q (i::nat)"
  shows "takeWhile Q [a..<b] = filter Q [a..<b]"
proof (induction b)
  case 0
  show ?case by simp
next
  case (Suc b)
  show ?case
  proof (cases "a \<le> b")
    case False
    then show ?thesis by simp
  next
    case True
    show ?thesis
    proof (cases "\<forall>v\<in>set [a..<b]. Q v")
      case all: True
      then have f: "filter Q [a..<b] = [a..<b]" by simp
      have "takeWhile Q ([a..<b] @ [b]) = [a..<b] @ takeWhile Q [b]"
        using all by (intro takeWhile_append2) simp
      then show ?thesis using True f by simp
    next
      case ex: False
      then obtain v where v: "a \<le> v" "v < b" "\<not> Q v" by auto
      then have "\<not> Q b" using assms [of v b] by auto
      moreover have "takeWhile Q ([a..<b] @ [b]) = takeWhile Q [a..<b]"
        using v by (intro takeWhile_append1 [of v]) auto
      ultimately show ?thesis using True Suc.IH by simp
    qed
  qed
qed

lemma mem_candidates:
  assumes "1 \<le> v" "k * v \<le> n"  "0 < k"
  shows "v \<in> set (candidates n (\<lambda>v. k * v \<le> n))"
proof -
  have "takeWhile (\<lambda>v. k * v \<le> n) [1..<Suc n] = filter (\<lambda>v. k * v \<le> n) [1..<Suc n]"
  proof (rule takeWhile_upt_filter)
    fix i j :: nat
    assume "i \<le> j" "k * j \<le> n"
    moreover from \<open>i \<le> j\<close> have "k * i \<le> k * j" by simp
    ultimately show "k * i \<le> n" by linarith
  qed
  moreover have "v \<le> k * v" using assms(3) by simp
  then have "v \<le> n" using assms(2) by linarith
  then have "v \<in> set [1..<Suc n]" using assms(1) by (simp del: upt_Suc)
  ultimately show ?thesis using assms(2) unfolding candidates_def by (simp del: upt_Suc)
qed

lemma stable_searchD:
  assumes "stable_search comm_size L nx_in ny_in nz_in Pr"
    and "nx_in = 0 \<or> a = nx_in" and "ny_in = 0 \<or> b = ny_in" and "Pr s"
  shows "Pr (nz_body comm_size L nx_in ny_in nz_in a b c s)"
  by (rule assms(1) [unfolded stable_search_def, rule_format, OF assms(2) assms(3) assms(4)])

lemma nz_loop_stable:
  assumes "stable_search comm_size L nx_in ny_in nz_in Pr" "Pr s"
    and "nx_in = 0 \<or> a = nx_in" and "ny_in = 0 \<or> b = ny_in"
  shows "Pr (nz_loop comm_size L nx_in ny_in nz_in a b s)"
proof -
  have step: "Pr (nz_body comm_size L nx_in ny_in nz_in a b v t)" if "Pr t" for v t
    by (rule stable_searchD [OF assms(1) assms(3) assms(4) that])
  show ?thesis
    unfolding nz_loop_def
    using fold_stable [where Pr = Pr and f = "nz_body comm_size L nx_in ny_in nz_in a b", OF step]
      assms(2) by blast
qed

lemma ny_body_stable:
  assumes "stable_search comm_size L nx_in ny_in nz_in Pr" "Pr s" "nx_in = 0 \<or> a = nx_in"
  shows "Pr (ny_body comm_size L nx_in ny_in nz_in a b s)"
proof (cases "ny_in \<noteq> 0 \<and> b \<noteq> ny_in")
  case True
  then show ?thesis using assms(2) by (simp add: ny_body_def)
next
  case False
  then have pin: "ny_in = 0 \<or> b = ny_in" by blast
  have "Pr (nz_loop comm_size L nx_in ny_in nz_in a b s)"
    by (rule nz_loop_stable [OF assms(1) assms(2) assms(3) pin])
  then show ?thesis using pin by (auto simp add: ny_body_def)
qed

lemma ny_loop_stable:
  assumes "stable_search comm_size L nx_in ny_in nz_in Pr" "Pr s" "nx_in = 0 \<or> a = nx_in"
  shows "Pr (ny_loop comm_size L nx_in ny_in nz_in a s)"
proof -
  have step: "Pr (ny_body comm_size L nx_in ny_in nz_in a v t)" if "Pr t" for v t
    by (rule ny_body_stable [OF assms(1) that assms(3)])
  show ?thesis
    unfolding ny_loop_def
    using fold_stable [where Pr = Pr and f = "ny_body comm_size L nx_in ny_in nz_in a", OF step]
      assms(2) by blast
qed

lemma nx_body_stable:
  assumes "stable_search comm_size L nx_in ny_in nz_in Pr" "Pr s"
  shows "Pr (nx_body comm_size L nx_in ny_in nz_in a s)"
proof (cases "nx_in \<noteq> 0 \<and> a \<noteq> nx_in")
  case True
  then show ?thesis using assms(2) by (simp add: nx_body_def)
next
  case False
  then have pin: "nx_in = 0 \<or> a = nx_in" by blast
  have "Pr (ny_loop comm_size L nx_in ny_in nz_in a s)"
    by (rule ny_loop_stable [OF assms(1) assms(2) pin])
  then show ?thesis using pin by (auto simp add: nx_body_def)
qed

lemma nx_loop_stable:
  assumes "stable_search comm_size L nx_in ny_in nz_in Pr" "Pr s"
  shows "Pr (nx_loop comm_size L nx_in ny_in nz_in s)"
proof -
  have step: "Pr (nx_body comm_size L nx_in ny_in nz_in v t)" if "Pr t" for v t
    using assms(1) that by (rule nx_body_stable)
  show ?thesis
    unfolding nx_loop_def
    using fold_stable [where Pr = Pr and f = "nx_body comm_size L nx_in ny_in nz_in", OF step]
      assms(2) by blast
qed

lemma matches_request_pos:
  assumes "matches_request comm_size nx_in ny_in nz_in a b c" "1 \<le> comm_size"
  shows "1 \<le> a" "1 \<le> b" "1 \<le> c" "a \<le> comm_size" "a * b \<le> comm_size"
proof -
  from assms have m: "a * b * c = comm_size"
    by (simp add: matches_request_def)
  with assms(2) have "0 < a * b * c" by simp
  then have nz: "0 < a" "0 < b" "0 < c" by simp_all
  then show "1 \<le> a" "1 \<le> b" "1 \<le> c" by simp_all
  have "0 < b * c" using nz by simp
  then have "a \<le> a * (b * c)" by simp
  then show "a \<le> comm_size" using m by (simp only: mult.assoc)
  have "a * b \<le> a * b * c" using nz(3) by simp
  then show "a * b \<le> comm_size" using m by simp
qed

lemma nx_loop_reach:
  assumes st: "stable_search comm_size L nx_in ny_in nz_in Pr"
    and hit: "\<And>s. Pr (nz_body comm_size L nx_in ny_in nz_in a b c s)"
    and m: "matches_request comm_size nx_in ny_in nz_in a b c" and p: "1 \<le> comm_size"
  shows "Pr (nx_loop comm_size L nx_in ny_in nz_in s)"
proof -
  note pos = matches_request_pos [OF m p]
  have pins: "nx_in = 0 \<or> a = nx_in" "ny_in = 0 \<or> b = ny_in" "a * b * c = comm_size"
    using m by (simp_all add: matches_request_def)
  have z: "Pr (nz_loop comm_size L nx_in ny_in nz_in a b t)" for t
    unfolding nz_loop_def
  proof (rule fold_reach [where Pr = Pr and ?v0.0 = c])
    show "Pr (nz_body comm_size L nx_in ny_in nz_in a b v s)" if "Pr s" for v s
      by (rule stable_searchD [OF st pins(1) pins(2) that])
    show "c \<in> set (candidates comm_size (\<lambda>nz_try. a * b * nz_try \<le> comm_size))"
      using pos pins(3) by (intro mem_candidates) simp_all
    show "Pr (nz_body comm_size L nx_in ny_in nz_in a b c s)" for s by (rule hit)
  qed
  have yb: "Pr (ny_body comm_size L nx_in ny_in nz_in a b t)" for t
    using z [of t] pins(2) by (auto simp add: ny_body_def)
  have y: "Pr (ny_loop comm_size L nx_in ny_in nz_in a t)" for t
    unfolding ny_loop_def
  proof (rule fold_reach [where Pr = Pr and ?v0.0 = b])
    show "Pr (ny_body comm_size L nx_in ny_in nz_in a v s)" if "Pr s" for v s
      by (rule ny_body_stable [OF st that pins(1)])
    show "b \<in> set (candidates comm_size (\<lambda>ny_try. a * ny_try \<le> comm_size))"
      using pos by (intro mem_candidates) simp_all
    show "Pr (ny_body comm_size L nx_in ny_in nz_in a b s)" for s by (rule yb)
  qed
  have xb: "Pr (nx_body comm_size L nx_in ny_in nz_in a t)" for t
    using y [of t] pins(1) by (auto simp add: nx_body_def)
  have "a \<in> set (candidates comm_size (\<lambda>nx_try. 1 * nx_try \<le> comm_size))"
    using pos by (intro mem_candidates) simp_all
  then have mem: "a \<in> set (candidates comm_size (\<lambda>nx_try. nx_try \<le> comm_size))" by simp
  show ?thesis
    unfolding nx_loop_def
  proof (rule fold_reach [where Pr = Pr and ?v0.0 = a])
    show "Pr (nx_body comm_size L nx_in ny_in nz_in v s)" if "Pr s" for v s
      using st that by (rule nx_body_stable)
    show "a \<in> set (candidates comm_size (\<lambda>nx_try. nx_try \<le> comm_size))" by (rule mem)
    show "Pr (nx_body comm_size L nx_in ny_in nz_in a s)" for s by (rule xb)
  qed
qed

lemma findDecomposition_fold:
  assumes "0 < x L" "0 < y L" "0 < z L"
  shows "findDecomposition comm_size L nx ny nz =
    Inr (found_decomposition (nx_loop comm_size L nx ny nz (search_start comm_size L nx ny nz)),
         cur_nx (nx_loop comm_size L nx ny nz (search_start comm_size L nx ny nz)),
         cur_ny (nx_loop comm_size L nx ny nz (search_start comm_size L nx ny nz)),
         cur_nz (nx_loop comm_size L nx ny nz (search_start comm_size L nx ny nz)))"
  using assms by (simp add: findDecomposition_def search_start_def Let_def)

lemma nz_body_cases:
  obtains (skip) "nz_body comm_size L nx_in ny_in nz_in a b c s = s"
  | (take) "nz_in = 0 \<or> c = nz_in" "a * b * c = comm_size"
      "surface_area L a b c < min_surface_area s \<or> \<not> found_decomposition s"
      "nz_body comm_size L nx_in ny_in nz_in a b c s =
        \<lparr>cur_nx = a, cur_ny = b, cur_nz = c, min_surface_area = surface_area L a b c,
         found_decomposition = True\<rparr>"
proof (cases "(nz_in \<noteq> 0 \<and> c \<noteq> nz_in) \<or> a * b * c \<noteq> comm_size
    \<or> \<not> (surface_area L a b c < min_surface_area s \<or> \<not> found_decomposition s)")
  case True
  then have "nz_body comm_size L nx_in ny_in nz_in a b c s = s"
    unfolding nz_body_def by (simp only: if_True if_False split: if_split) blast
  then show ?thesis by (rule skip)
next
  case False
  then have f: "nz_in = 0 \<or> c = nz_in" "a * b * c = comm_size"
    "surface_area L a b c < min_surface_area s \<or> \<not> found_decomposition s"
    by blast+
  then have "nz_body comm_size L nx_in ny_in nz_in a b c s =
        \<lparr>cur_nx = a, cur_ny = b, cur_nz = c, min_surface_area = surface_area L a b c,
         found_decomposition = True\<rparr>"
    unfolding nz_body_def by (simp only: if_True if_False split: if_split) blast
  with f show ?thesis by (rule take)
qed

lemma stable_found:
  "stable_search comm_size L nx_in ny_in nz_in found_decomposition"
  unfolding stable_search_def
proof (intro allI impI)
  fix a b c and s :: search
  assume "found_decomposition s"
  then show "found_decomposition (nz_body comm_size L nx_in ny_in nz_in a b c s)"
    by (cases rule: nz_body_cases [of comm_size L nx_in ny_in nz_in a b c s]) simp_all
qed

lemma stable_consistent:
  "stable_search comm_size L nx_in ny_in nz_in
     (\<lambda>s. found_decomposition s \<longrightarrow>
        matches_request comm_size nx_in ny_in nz_in (cur_nx s) (cur_ny s) (cur_nz s)
        \<and> min_surface_area s = surface_area L (cur_nx s) (cur_ny s) (cur_nz s))"
  unfolding stable_search_def
proof (intro allI impI)
  fix a b c and s :: search
  assume pins: "nx_in = 0 \<or> a = nx_in" "ny_in = 0 \<or> b = ny_in"
    and inv: "found_decomposition s \<longrightarrow>
        matches_request comm_size nx_in ny_in nz_in (cur_nx s) (cur_ny s) (cur_nz s)
        \<and> min_surface_area s = surface_area L (cur_nx s) (cur_ny s) (cur_nz s)"
    and f: "found_decomposition (nz_body comm_size L nx_in ny_in nz_in a b c s)"
  let ?t = "nz_body comm_size L nx_in ny_in nz_in a b c s"
  show "matches_request comm_size nx_in ny_in nz_in (cur_nx ?t) (cur_ny ?t) (cur_nz ?t)
        \<and> min_surface_area ?t = surface_area L (cur_nx ?t) (cur_ny ?t) (cur_nz ?t)"
  proof (cases rule: nz_body_cases [of comm_size L nx_in ny_in nz_in a b c s])
    case skip
    with inv f show ?thesis by simp
  next
    case take
    with pins show ?thesis by (simp add: matches_request_def)
  qed
qed

lemma stable_bound:
  "stable_search comm_size L nx_in ny_in nz_in
     (\<lambda>s. found_decomposition s \<and> min_surface_area s \<le> r)"
  unfolding stable_search_def
proof (intro allI impI)
  fix a b c and s :: search
  assume inv: "found_decomposition s \<and> min_surface_area s \<le> r"
  let ?t = "nz_body comm_size L nx_in ny_in nz_in a b c s"
  show "found_decomposition ?t \<and> min_surface_area ?t \<le> r"
  proof (cases rule: nz_body_cases [of comm_size L nx_in ny_in nz_in a b c s])
    case skip
    with inv show ?thesis by simp
  next
    case take
    with inv show ?thesis by simp
  qed
qed

lemma nz_body_hit:
  assumes "matches_request comm_size nx_in ny_in nz_in a b c"
  shows "found_decomposition (nz_body comm_size L nx_in ny_in nz_in a b c s)
     \<and> min_surface_area (nz_body comm_size L nx_in ny_in nz_in a b c s) \<le> surface_area L a b c"
proof (cases rule: nz_body_cases [of comm_size L nx_in ny_in nz_in a b c s])
  case skip
  have "nz_in = 0 \<or> c = nz_in" "a * b * c = comm_size"
    using assms by (simp_all add: matches_request_def)
  then have "found_decomposition s \<and> \<not> surface_area L a b c < min_surface_area s"
    using skip unfolding nz_body_def by (auto split: if_splits)
  then show ?thesis using skip by simp
next
  case take
  then show ?thesis by simp
qed

lemma stable_unchanged:
  assumes "\<And>a b c. \<not> matches_request comm_size nx_in ny_in nz_in a b c"
  shows "stable_search comm_size L nx_in ny_in nz_in (\<lambda>s. s = s0)"
  unfolding stable_search_def
proof (intro allI impI)
  fix a b c and s :: search
  assume pins: "nx_in = 0 \<or> a = nx_in" "ny_in = 0 \<or> b = ny_in" and s: "s = s0"
  have "\<not> matches_request comm_size nx_in ny_in nz_in a b c" by (rule assms)
  with pins have "(nz_in \<noteq> 0 \<and> c \<noteq> nz_in) \<or> a * b * c \<noteq> comm_size"
    unfolding matches_request_def by auto
  then show "nz_body comm_size L nx_in ny_in nz_in a b c s = s0"
    using s by (auto simp: nz_body_def)
qed

lemma search_minimal:
  assumes m: "matches_request comm_size nx_in ny_in nz_in a b c" and p: "1 \<le> comm_size"
  shows "found_decomposition (nx_loop comm_size L nx_in ny_in nz_in s)
    \<and> min_surface_area (nx_loop comm_size L nx_in ny_in nz_in s)
        \<le> surface_area L a b c"
  by (rule nx_loop_reach [where Pr = "\<lambda>s. found_decomposition s \<and> min_surface_area s \<le> surface_area L a b c",
        OF stable_bound nz_body_hit [OF m] m p])

lemma findDecomposition_unconstrained:
  assumes L: "0 < x L" "0 < y L" "0 < z L" and p: "1 \<le> comm_size"
  shows "\<exists>a b c. findDecomposition comm_size L 0 0 0 = Inr (True, a, b, c)
      \<and> a * b * c = comm_size
      \<and> (\<forall>a' b' c'. a' * b' * c' = comm_size \<longrightarrow> surface_area L a b c \<le> surface_area L a' b' c')"
proof -
  let ?s = "nx_loop comm_size L 0 0 0 (search_start comm_size L 0 0 0)"
  have f: "found_decomposition ?s"
    by (rule nx_loop_stable [OF stable_found]) (simp add: search_start_def)
  have "found_decomposition ?s \<longrightarrow>
        matches_request comm_size 0 0 0 (cur_nx ?s) (cur_ny ?s) (cur_nz ?s)
        \<and> min_surface_area ?s = surface_area L (cur_nx ?s) (cur_ny ?s) (cur_nz ?s)"
    by (rule nx_loop_stable [OF stable_consistent])
      (simp add: search_start_def matches_request_def surface_area_def)
  with f have c: "cur_nx ?s * cur_ny ?s * cur_nz ?s = comm_size"
    "min_surface_area ?s = surface_area L (cur_nx ?s) (cur_ny ?s) (cur_nz ?s)"
    by (simp_all add: matches_request_def)
  have "surface_area L (cur_nx ?s) (cur_ny ?s) (cur_nz ?s) \<le> surface_area L a' b' c'"
    if "a' * b' * c' = comm_size" for a' b' c'
  proof -
    from that have "matches_request comm_size 0 0 0 a' b' c'" by (simp add: matches_request_def)
    from search_minimal [OF this p, of L "search_start comm_size L 0 0 0"] show ?thesis
      using c(2) by simp
  qed
  then show ?thesis using f c(1) findDecomposition_fold [OF L, of comm_size 0 0 0] by auto
qed

lemma findDecomposition_unsatisfiable:
  assumes L: "0 < x L" "0 < y L" "0 < z L"
    and pinned: "nx \<noteq> 0 \<or> ny \<noteq> 0 \<or> nz \<noteq> 0"
    and none: "\<And>a b c. \<not> matches_request comm_size nx ny nz a b c"
  shows "findDecomposition comm_size L nx ny nz = Inr (False, 1, 1, comm_size)"
proof -
  have "nx_loop comm_size L nx ny nz (search_start comm_size L nx ny nz)
      = search_start comm_size L nx ny nz"
    by (rule nx_loop_stable [OF stable_unchanged [OF none]]) simp
  then show ?thesis using pinned findDecomposition_fold [OF L, of comm_size nx ny nz]
    by (auto simp: search_start_def)
qed

lemma findDecomposition_pinned:
  assumes L: "0 < x L" "0 < y L" "0 < z L" and p: "1 \<le> comm_size"
    and pinned: "nx \<noteq> 0 \<or> ny \<noteq> 0 \<or> nz \<noteq> 0"
    and some: "matches_request comm_size nx ny nz a0 b0 c0"
  shows "\<exists>a b c. findDecomposition comm_size L nx ny nz = Inr (True, a, b, c)
      \<and> matches_request comm_size nx ny nz a b c
      \<and> (\<forall>a' b' c'. matches_request comm_size nx ny nz a' b' c'
            \<longrightarrow> surface_area L a b c \<le> surface_area L a' b' c')"
proof -
  let ?s = "nx_loop comm_size L nx ny nz (search_start comm_size L nx ny nz)"
  have f: "found_decomposition ?s" using search_minimal [OF some p] by blast
  have "found_decomposition ?s \<longrightarrow>
        matches_request comm_size nx ny nz (cur_nx ?s) (cur_ny ?s) (cur_nz ?s)
        \<and> min_surface_area ?s = surface_area L (cur_nx ?s) (cur_ny ?s) (cur_nz ?s)"
    using pinned by (intro nx_loop_stable [OF stable_consistent]) (auto simp add: search_start_def)
  with f have c: "matches_request comm_size nx ny nz (cur_nx ?s) (cur_ny ?s) (cur_nz ?s)"
    "min_surface_area ?s = surface_area L (cur_nx ?s) (cur_ny ?s) (cur_nz ?s)"
    by simp_all
  have "surface_area L (cur_nx ?s) (cur_ny ?s) (cur_nz ?s) \<le> surface_area L a' b' c'"
    if "matches_request comm_size nx ny nz a' b' c'" for a' b' c'
    using search_minimal [OF that p, of L "search_start comm_size L nx ny nz"] c(2) by simp
  then show ?thesis using f c(1) findDecomposition_fold [OF L, of comm_size nx ny nz] by auto
qed




subsection \<open>An unsatisfiable pinned decomposition\<close>

text \<open>
  Claim C5, as stated, fails: with 8 processes and \<open>nx\<close> pinned to 3 no factorization
  matches and \<^verbatim>\<open>findDecomposition\<close> returns false, but the constructor does not abort: it
  reports the failure and builds the object on the default grid \<open>(2, 2, 2)\<close>.
\<close>

theorem construct_unsatisfiable_counterexample:
  "findDecomposition 8 \<lparr>x = 2, y = 2, z = 2\<rparr> 3 0 0 = Inr (False, 1, 1, 8)
   \<and> construct_DomainDecomposition 8 0 \<lparr>x = 2, y = 2, z = 2\<rparr> 3 0 0
       = Inr ([Unable_to_find_decomposition 8, Notice_decomposition 8 2 2 2],
              domain_of_rank 2 2 2 0)"
proof -
  have a: "findDecomposition 8 \<lparr>x = 2, y = 2, z = 2\<rparr> 3 0 0 = Inr (False, 1, 1, 8)"
    by code_simp
  have b: "findDecomposition 8 \<lparr>x = 2, y = 2, z = 2\<rparr> 0 0 0 = Inr (True, 2, 2, 2)"
    by code_simp
  show ?thesis using a b by (simp add: construct_DomainDecomposition_def)
qed

text \<open>
  Claim C5, amended.  When at least one of \<open>nx\<close>, \<open>ny\<close>, \<open>nz\<close> is pinned and no
  factorization of the number of processes matches the pinned values,
  \<^verbatim>\<open>findDecomposition\<close> returns false (the grid is left at the initial guess
  \<open>(1, 1, size)\<close>); the constructor then reports the failure at error level and goes on
  with the grid of the unconstrained search: it constructs the object and does not
  abort.
\<close>

theorem construct_unsatisfiable_falls_back:
  assumes "0 < x L" and "0 < y L" and "0 < z L" and "1 \<le> comm_size" and "comm_size < 2 ^ 31"
    and "nx \<noteq> 0 \<or> ny \<noteq> 0 \<or> nz \<noteq> 0"
    and "\<forall>a b c. \<not> matches_request comm_size nx ny nz a b c"
  shows "findDecomposition comm_size L nx ny nz = Inr (False, 1, 1, comm_size)
    \<and> (\<exists>a b c. findDecomposition comm_size L 0 0 0 = Inr (True, a, b, c)
          \<and> a * b * c = comm_size
          \<and> construct_DomainDecomposition comm_size rank L nx ny nz
              = Inr ([Unable_to_find_decomposition comm_size,
                      Notice_decomposition comm_size a b c],
                     domain_of_rank a b c rank))"
proof -
  have none: "\<not> matches_request comm_size nx ny nz a b c" for a b c
    using assms(7) by blast
  have f: "findDecomposition comm_size L nx ny nz = Inr (False, 1, 1, comm_size)"
    by (rule findDecomposition_unsatisfiable [OF assms(1-3) assms(6) none])
  from findDecomposition_unconstrained [OF assms(1-4)] obtain a b c where
    u: "findDecomposition comm_size L 0 0 0 = Inr (True, a, b, c)" "a * b * c = comm_size"
    by blast
  have "construct_DomainDecomposition comm_size rank L nx ny nz
      = Inr ([Unable_to_find_decomposition comm_size, Notice_decomposition comm_size a b c],
             domain_of_rank a b c rank)"
    using f u(1) by (simp add: construct_DomainDecomposition_def)
  with f u show ?thesis by blast
qed

theorem construct_unsatisfiable_falls_back_witness:
  "(0::real) < 2 \<and> (1::nat) \<le> 8 \<and> (8::nat) < 2 ^ 31 \<and> (3::nat) \<noteq> 0
   \<and> (\<forall>a b c. \<not> matches_request 8 3 0 0 a b c)
   \<and> findDecomposition 8 \<lparr>x = 2, y = 2, z = 2\<rparr> 3 0 0 = Inr (False, 1, 1, 8)
   \<and> (\<exists>a b c. construct_DomainDecomposition 8 5 \<lparr>x = 2, y = 2, z = 2\<rparr> 3 0 0
          = Inr ([Unable_to_find_decomposition 8, Notice_decomposition 8 a b c],
                 domain_of_rank a b c 5))"
proof -
  have none: "\<forall>a b c. \<not> matches_request 8 3 0 0 a b c"
  proof (intro allI notI)
    fix a b c :: nat
    assume "matches_request 8 3 0 0 a b c"
    then have "3 * (b * c) = 8" by (auto simp add: matches_request_def mult.assoc)
    then have "(3::nat) dvd 8" by (metis dvd_triv_left)
    then show False by simp
  qed
  have h: "(0::real) < x \<lparr>x = 2, y = 2, z = 2\<rparr>" "(0::real) < y \<lparr>x = 2, y = 2, z = 2\<rparr>"
    "(0::real) < z \<lparr>x = 2, y = 2, z = 2\<rparr>" "(1::nat) \<le> 8" "(8::nat) < 2 ^ 31"
    "(3::nat) \<noteq> 0 \<or> (0::nat) \<noteq> 0 \<or> (0::nat) \<noteq> 0"
    by simp_all
  from construct_unsatisfiable_falls_back [OF h none, of 5] none show ?thesis
    by auto
qed

subsection \<open>update: the box must fit the minimum image convention\<close>

text \<open>
  Claim C6, as stated, fails: in a two-dimensional system the \<open>z\<close> axis is not
  checked.  With one particle, a box periodic in \<open>z\<close> whose nearest plane distance along
  \<open>z\<close> is 1, and a nominal width of 1 (twice of which is 2), \<^verbatim>\<open>update\<close> does not raise: the
  sweeps run.
\<close>

theorem update_box_too_small_counterexample:
  "pdata_N \<lparr>pdata_N = 1, global_periodic = \<lparr>x = True, y = True, z = True\<rparr>,
       nearest_plane_distance = \<lparr>x = 10, y = 10, z = 1\<rparr>, m_nominal_width = 1,
       n_dimensions = 2\<rparr> > 0
   \<and> z (global_periodic \<lparr>pdata_N = 1, global_periodic = \<lparr>x = True, y = True, z = True\<rparr>,
       nearest_plane_distance = \<lparr>x = 10, y = 10, z = 1\<rparr>, m_nominal_width = 1,
       n_dimensions = 2\<rparr>)
   \<and> z (nearest_plane_distance \<lparr>pdata_N = 1, global_periodic = \<lparr>x = True, y = True, z = True\<rparr>,
       nearest_plane_distance = \<lparr>x = 10, y = 10, z = 1\<rparr>, m_nominal_width = 1,
       n_dimensions = 2\<rparr>) < 2 * 1
   \<and> update (\<lambda>s. s) (\<lambda>s. ''swept'' # s) (\<lambda>s. s) (\<lambda>s. s)
       \<lparr>pdata_N = 1, global_periodic = \<lparr>x = True, y = True, z = True\<rparr>,
        nearest_plane_distance = \<lparr>x = 10, y = 10, z = 1\<rparr>, m_nominal_width = 1,
        n_dimensions = 2\<rparr> [] = Inr [''swept'']"
  by (simp add: update_def)

text \<open>
  Claim C6, amended.  At the start of \<^verbatim>\<open>update\<close> with at least one local particle, if
  the nearest plane distance of the global box is at most twice the nominal width on a
  periodic \<open>x\<close> axis or on a periodic \<open>y\<close> axis, or, in a three-dimensional system, on a
  periodic \<open>z\<close> axis, then \<^verbatim>\<open>update\<close> raises the runtime error in the state that the
  prelude left: nothing of the sweeps has been applied.
\<close>

theorem update_box_too_small:
  assumes "pdata_N sys > 0"
    and "(x (global_periodic sys) \<and> x (nearest_plane_distance sys) \<le> 2 * m_nominal_width sys)
       \<or> (y (global_periodic sys) \<and> y (nearest_plane_distance sys) \<le> 2 * m_nominal_width sys)
       \<or> (n_dimensions sys = 3 \<and> z (global_periodic sys)
            \<and> z (nearest_plane_distance sys) \<le> 2 * m_nominal_width sys)"
  shows "update prelude sweeps shift communicate sys st = Inl (RuntimeError, prelude st)"
  using assms by (auto simp: update_def Let_def mult.commute)

theorem update_box_too_small_witness:
  "pdata_N \<lparr>pdata_N = 1, global_periodic = \<lparr>x = True, y = True, z = True\<rparr>,
       nearest_plane_distance = \<lparr>x = 10, y = 10, z = 1\<rparr>, m_nominal_width = 1,
       n_dimensions = 3\<rparr> > 0
   \<and> n_dimensions \<lparr>pdata_N = 1, global_periodic = \<lparr>x = True, y = True, z = True\<rparr>,
       nearest_plane_distance = \<lparr>x = 10, y = 10, z = 1\<rparr>, m_nominal_width = 1,
       n_dimensions = 3\<rparr> = 3
   \<and> update (\<lambda>s. ''prelude'' # s) (\<lambda>s. ''swept'' # s) (\<lambda>s. s) (\<lambda>s. s)
       \<lparr>pdata_N = 1, global_periodic = \<lparr>x = True, y = True, z = True\<rparr>,
        nearest_plane_distance = \<lparr>x = 10, y = 10, z = 1\<rparr>, m_nominal_width = 1,
        n_dimensions = 3\<rparr> [] = Inl (RuntimeError, [''prelude''])"
  using update_box_too_small [of "\<lparr>pdata_N = 1, global_periodic = \<lparr>x = True, y = True, z = True\<rparr>,
        nearest_plane_distance = \<lparr>x = 10, y = 10, z = 1\<rparr>, m_nominal_width = 1,
        n_dimensions = 3\<rparr>" "\<lambda>s. ''prelude'' # s" "\<lambda>s. ''swept'' # s" "\<lambda>s. s" "\<lambda>s. s" "[]"]
  by simp

subsection \<open>The convergence loop terminates within N iterations\<close>










lemma m_reject_after_iteration [simp]:
  "m_reject (after_iteration st reject reject_new condition) = reject_new"
  by (simp add: after_iteration_def)









subsection \<open>The reject flags are not monotone; they settle in update order\<close>




subsection \<open>A type pair with zero fugacity is never touched\<close>

















subsection \<open>A bond with a non-finite force magnitude\<close>














end
